theory Spec2Isabelle
  imports Main "HOL-Library.Finite_Map"
begin

section \<open>The auto\_ptr shim of folly\_compat.h\<close>

text \<open>
  The header defines, inside namespace std, the class template
  \<^verbatim>\<open>
  template<class T> class auto_ptr {
    T* ptr;
  public:
    explicit auto_ptr(T* p = 0) : ptr(p) {}
    ~auto_ptr() { delete ptr; }
    auto_ptr(const auto_ptr& other) : ptr(other.release()) {}
    auto_ptr& operator=(const auto_ptr& other) {
      if (this != &other) { delete ptr; ptr = other.release(); }
      return *this;
    }
    T* get() const { return ptr; }
    T* release() { T* tmp = ptr; ptr = 0; return tmp; }
    void reset(T* p = 0) { if (ptr != p) { delete ptr; ptr = p; } }
  };
  \<close>
  (\<open>operator*\<close> and \<open>operator->\<close> are left out). The member functions mutate the instance
  they are called on, the instance passed as \<open>other\<close>, and the free store. The comparison \<open>this != &other\<close> depends on the
  identity of instances, so instances live in an explicit store indexed by their
  identity, and every member function is a transformer of the whole program state.
\<close>

subsection \<open>Data model\<close>

text \<open>
  A raw pointer \<open>T*\<close> is a natural number; the literal \<open>0\<close> of the source is the null
  pointer. The element type \<open>T\<close> plays no part in any member function modelled here.
\<close>

type_synonym addr = nat

text \<open>The identity of an instance: what \<open>this\<close> and \<open>&other\<close> compare.\<close>

type_synonym ref = nat

text \<open>The class has one data member.\<close>

record auto_ptr =
  ptr :: addr

text \<open>
  The program state: the instances that are alive (constructed and not yet destroyed),
  each with its data member, and the log of the deallocations performed so far, oldest
  first.
\<close>

record state =
  objs :: "(ref, auto_ptr) fmap"
  freed :: "addr list"

definition init_state :: state where
  "init_state = \<lparr>objs = fmempty, freed = []\<rparr>"

subsection \<open>The delete expression\<close>

text \<open>
  \<open>delete p\<close> deallocates the object at \<open>p\<close>; on a null pointer it does nothing (that
  is the language's rule, the source has no test of its own). A deallocation is
  recorded in the log, so a second \<open>delete\<close> of the same address shows as a second entry.
  The destructor of \<open>T\<close> that \<open>delete\<close> runs is outside this class; it is taken to leave
  every \<open>auto_ptr\<close> instance of the store as it is.
\<close>

definition delete_ptr :: "addr \<Rightarrow> state \<Rightarrow> state" where
  "delete_ptr p s = (if p = 0 then s else s\<lparr>freed := freed s @ [p]\<rparr>)"

subsection \<open>Member functions\<close>

text \<open>
  Every member function returns \<open>None\<close> when it is called on an instance that is not
  alive, and a constructor returns \<open>None\<close> when asked to build an instance at an
  identity that is already alive: neither happens in a C++ program with defined
  behaviour. \<open>None\<close> is also the result of a call that the compiler rejects (see
  \<open>const_violation\<close> below). Otherwise the result is the value returned (if any) and
  the new state.
\<close>

text \<open>\<open>explicit auto_ptr(T* p = 0) : ptr(p) {}\<close>\<close>

definition auto_ptr_ctor :: "ref \<Rightarrow> addr \<Rightarrow> state \<Rightarrow> state option" where
  "auto_ptr_ctor this p s =
     (case fmlookup (objs s) this of
        Some _ \<Rightarrow> None
      | None \<Rightarrow> Some (s\<lparr>objs := fmupd this \<lparr>ptr = p\<rparr> (objs s)\<rparr>))"

text \<open>The same constructor with its default argument.\<close>

definition auto_ptr_ctor_default :: "ref \<Rightarrow> state \<Rightarrow> state option" where
  "auto_ptr_ctor_default this s = auto_ptr_ctor this 0 s"

text \<open>\<open>~auto_ptr() { delete ptr; }\<close>, after which the instance is no longer alive.\<close>

definition auto_ptr_dtor :: "ref \<Rightarrow> state \<Rightarrow> state option" where
  "auto_ptr_dtor this s =
     (case fmlookup (objs s) this of
        None \<Rightarrow> None
      | Some a \<Rightarrow>
          (let s1 = delete_ptr (ptr a) s
           in Some (s1\<lparr>objs := fmdrop this (objs s1)\<rparr>)))"

text \<open>\<open>T* get() const { return ptr; }\<close>\<close>

definition get :: "ref \<Rightarrow> state \<Rightarrow> (addr \<times> state) option" where
  "get this s =
     (case fmlookup (objs s) this of
        None \<Rightarrow> None
      | Some a \<Rightarrow> Some (ptr a, s))"

text \<open>\<open>T* release() { T* tmp = ptr; ptr = 0; return tmp; }\<close>\<close>

definition release :: "ref \<Rightarrow> state \<Rightarrow> (addr \<times> state) option" where
  "release this s =
     (case fmlookup (objs s) this of
        None \<Rightarrow> None
      | Some a \<Rightarrow>
          (let tmp = ptr a
           in Some (tmp, s\<lparr>objs := fmupd this (a\<lparr>ptr := 0\<rparr>) (objs s)\<rparr>)))"

subsection \<open>The two copy operations and the const qualifier\<close>

text \<open>
  The copy constructor and \<open>operator=\<close> take their argument as \<open>const auto_ptr&\<close> and
  call \<open>other.release()\<close> in their body, while \<open>release\<close> is declared without \<open>const\<close>.
  Calling a non-const member through a reference to const is ill-formed. The two are
  members of a class template, so the header itself is accepted, and the error is
  raised where a program uses one of them: the member is then instantiated and its whole
  body is checked, whichever branch would run.

  How the program is translated is therefore a parameter of the two operations.
  \<open>Conforming\<close> is a compiler that follows the language: it rejects the program, and the
  call has no result. \<open>Permissive\<close> is a compiler that lets the call through with the
  qualifier discarded (as GCC does under \<open>-fpermissive\<close>): the body runs as written.
\<close>

datatype dialect = Conforming | Permissive

definition const_violation :: "dialect \<Rightarrow> 'a option \<Rightarrow> 'a option" where
  "const_violation d body = (case d of Conforming \<Rightarrow> None | Permissive \<Rightarrow> body)"

text \<open>\<open>auto_ptr(const auto_ptr& other) : ptr(other.release()) {}\<close>\<close>

definition auto_ptr_copy_ctor :: "dialect \<Rightarrow> ref \<Rightarrow> ref \<Rightarrow> state \<Rightarrow> state option" where
  "auto_ptr_copy_ctor d this other s =
     const_violation d
       (case fmlookup (objs s) this of
          Some _ \<Rightarrow> None
        | None \<Rightarrow>
            (case release other s of
               None \<Rightarrow> None
             | Some (p, s1) \<Rightarrow> Some (s1\<lparr>objs := fmupd this \<lparr>ptr = p\<rparr> (objs s1)\<rparr>)))"

text \<open>
  \<open>auto_ptr& operator=(const auto_ptr& other)\<close>: the result is the reference \<open>*this\<close>.
  In the body, \<open>delete ptr\<close> comes before \<open>other.release()\<close>.
\<close>

definition operator_assign ::
  "dialect \<Rightarrow> ref \<Rightarrow> ref \<Rightarrow> state \<Rightarrow> (ref \<times> state) option" where
  "operator_assign d this other s =
     const_violation d
       (case fmlookup (objs s) this of
          None \<Rightarrow> None
        | Some a \<Rightarrow>
            (if this \<noteq> other then
               (let s1 = delete_ptr (ptr a) s
                in case release other s1 of
                     None \<Rightarrow> None
                   | Some (p, s2) \<Rightarrow>
                       Some (this, s2\<lparr>objs := fmupd this (a\<lparr>ptr := p\<rparr>) (objs s2)\<rparr>))
             else Some (this, s)))"

subsection \<open>The other members\<close>

text \<open>\<open>void reset(T* p = 0) { if (ptr != p) { delete ptr; ptr = p; } }\<close>\<close>

definition reset :: "ref \<Rightarrow> addr \<Rightarrow> state \<Rightarrow> state option" where
  "reset this p s =
     (case fmlookup (objs s) this of
        None \<Rightarrow> None
      | Some a \<Rightarrow>
          (if ptr a \<noteq> p then
             (let s1 = delete_ptr (ptr a) s
              in Some (s1\<lparr>objs := fmupd this (a\<lparr>ptr := p\<rparr>) (objs s1)\<rparr>))
           else Some s))"

text \<open>\<open>reset()\<close>: the call with the default argument.\<close>

definition reset_default :: "ref \<Rightarrow> state \<Rightarrow> state option" where
  "reset_default this s = reset this 0 s"

subsection \<open>Sequences of operations\<close>

text \<open>
  A client program, as far as the instances are concerned, is a sequence of calls of the
  public members, translated by one compiler. \<open>exec\<close> performs one call and drops the
  value returned.
\<close>

datatype op =
    Construct ref addr
  | CopyConstruct ref ref
  | Assign ref ref
  | Get ref
  | Release ref
  | Reset ref addr
  | Destroy ref

fun exec :: "dialect \<Rightarrow> op \<Rightarrow> state \<Rightarrow> state option" where
  "exec d (Construct r p) s = auto_ptr_ctor r p s"
| "exec d (CopyConstruct r other) s = auto_ptr_copy_ctor d r other s"
| "exec d (Assign r other) s = map_option snd (operator_assign d r other s)"
| "exec d (Get r) s = map_option snd (get r s)"
| "exec d (Release r) s = map_option snd (release r s)"
| "exec d (Reset r p) s = reset r p s"
| "exec d (Destroy r) s = auto_ptr_dtor r s"

fun run :: "dialect \<Rightarrow> op list \<Rightarrow> state \<Rightarrow> state option" where
  "run d [] s = Some s"
| "run d (x # xs) s = (case exec d x s of None \<Rightarrow> None | Some s' \<Rightarrow> run d xs s')"

subsection \<open>Ownership\<close>

text \<open>Instance \<open>r\<close> is alive and its data member is \<open>a\<close>.\<close>

definition holds :: "state \<Rightarrow> ref \<Rightarrow> addr \<Rightarrow> bool" where
  "holds s r a = (case fmlookup (objs s) r of None \<Rightarrow> False | Some x \<Rightarrow> ptr x = a)"

text \<open>Some live instance other than \<open>this\<close> holds \<open>a\<close>.\<close>

definition held_elsewhere :: "state \<Rightarrow> ref \<Rightarrow> addr \<Rightarrow> bool" where
  "held_elsewhere s this a = (\<exists>r \<in> fmdom' (objs s). r \<noteq> this \<and> holds s r a)"

text \<open>
  The single-owner invariant: every live instance is empty, or holds an address that no
  other live instance holds.
\<close>

definition single_owner :: "state \<Rightarrow> bool" where
  "single_owner s =
     (\<forall>r \<in> fmdom' (objs s).
        case fmlookup (objs s) r of
          None \<Rightarrow> True
        | Some x \<Rightarrow> ptr x = 0 \<or> \<not> held_elsewhere s r (ptr x))"

text \<open>
  The two members that take a raw pointer from the caller are the constructor and
  \<open>reset\<close>. A call of one of them adopts an unheld address when the pointer passed is
  null or is held by no other live instance.
\<close>

fun adopts_unheld :: "op \<Rightarrow> state \<Rightarrow> bool" where
  "adopts_unheld (Construct r p) s = (p = 0 \<or> \<not> held_elsewhere s r p)"
| "adopts_unheld (Reset r p) s = (p = 0 \<or> \<not> held_elsewhere s r p)"
| "adopts_unheld _ s = True"

text \<open>Every call of the sequence, in the state where it is made, adopts an unheld address.\<close>

fun disciplined :: "dialect \<Rightarrow> op list \<Rightarrow> state \<Rightarrow> bool" where
  "disciplined d [] s = True"
| "disciplined d (x # xs) s =
     (adopts_unheld x s \<and>
      (case exec d x s of None \<Rightarrow> True | Some s' \<Rightarrow> disciplined d xs s'))"


section \<open>Preservation of the single-owner invariant\<close>

lemma holds_iff: "holds s r a \<longleftrightarrow> (\<exists>x. fmlookup (objs s) r = Some x \<and> ptr x = a)"
  by (auto simp: holds_def split: option.splits)

lemma held_elsewhere_iff:
  "held_elsewhere s this a \<longleftrightarrow> (\<exists>r x. r \<noteq> this \<and> fmlookup (objs s) r = Some x \<and> ptr x = a)"
  by (auto simp: held_elsewhere_def holds_iff fmlookup_dom'_iff)

lemma single_ownerI:
  assumes "\<And>r1 r2 x1 x2. fmlookup (objs s) r1 = Some x1 \<Longrightarrow> fmlookup (objs s) r2 = Some x2 \<Longrightarrow>
             ptr x1 = ptr x2 \<Longrightarrow> ptr x1 \<noteq> 0 \<Longrightarrow> r1 = r2"
  shows "single_owner s"
  unfolding single_owner_def held_elsewhere_iff
proof (intro ballI)
  fix r assume "r \<in> fmdom' (objs s)"
  show "case fmlookup (objs s) r of None \<Rightarrow> True
        | Some x \<Rightarrow> ptr x = 0 \<or> \<not> (\<exists>r' x'. r' \<noteq> r \<and> fmlookup (objs s) r' = Some x' \<and> ptr x' = ptr x)"
  proof (cases "fmlookup (objs s) r")
    case None
    then show ?thesis by simp
  next
    case (Some x)
    have "r' = r" if "fmlookup (objs s) r' = Some x'" "ptr x' = ptr x" "ptr x \<noteq> 0" for r' x'
      using assms [of r' x' r x] that Some by simp
    with Some show ?thesis by auto
  qed
qed

lemma single_ownerD:
  assumes "single_owner s"
    and "fmlookup (objs s) r1 = Some x1" and "fmlookup (objs s) r2 = Some x2"
    and "ptr x1 = ptr x2" and "ptr x1 \<noteq> 0"
  shows "r1 = r2"
proof (rule ccontr)
  assume ne: "r1 \<noteq> r2"
  from assms(3) have dom: "r2 \<in> fmdom' (objs s)" by (rule fmdom'I)
  with assms(1,3) have "ptr x2 = 0 \<or> \<not> held_elsewhere s r2 (ptr x2)"
    by (auto simp: single_owner_def)
  moreover have "held_elsewhere s r2 (ptr x2)"
    unfolding held_elsewhere_iff using ne assms(2,4) by blast
  ultimately show False using assms(4,5) by simp
qed

lemma objs_delete_ptr [simp]: "objs (delete_ptr p s) = objs s"
  by (simp add: delete_ptr_def)

lemma single_owner_objs:
  assumes "single_owner s" and "objs s' = objs s"
  shows "single_owner s'"
proof (rule single_ownerI)
  fix r1 r2 x1 x2
  assume "fmlookup (objs s') r1 = Some x1" "fmlookup (objs s') r2 = Some x2"
    "ptr x1 = ptr x2" "ptr x1 \<noteq> 0"
  with assms show "r1 = r2" by (auto dest: single_ownerD)
qed

lemma single_owner_update:
  assumes inv: "single_owner s"
    and same: "\<And>q. q \<noteq> r \<Longrightarrow> fmlookup (objs s') q = fmlookup (objs s) q"
    and new: "fmlookup (objs s') r = Some y"
    and fresh: "ptr y = 0 \<or> \<not> held_elsewhere s r (ptr y)"
  shows "single_owner s'"
proof (rule single_ownerI)
  fix r1 r2 x1 x2
  assume l1: "fmlookup (objs s') r1 = Some x1" and l2: "fmlookup (objs s') r2 = Some x2"
    and eq: "ptr x1 = ptr x2" and nz: "ptr x1 \<noteq> 0"
  have clash: False
    if "q \<noteq> r" and "fmlookup (objs s') q = Some x" and "ptr x = ptr y" and "ptr y \<noteq> 0" for q x
  proof -
    from that same have "fmlookup (objs s) q = Some x" by simp
    with that have "held_elsewhere s r (ptr y)"
      unfolding held_elsewhere_iff by blast
    with fresh that show False by simp
  qed
  consider "r1 = r" "r2 = r" | "r1 = r" "r2 \<noteq> r" | "r1 \<noteq> r" "r2 = r" | "r1 \<noteq> r" "r2 \<noteq> r"
    by blast
  then show "r1 = r2"
  proof cases
    case 1
    then show ?thesis by simp
  next
    case 2
    with l1 new have "x1 = y" by simp
    with 2 l2 eq nz clash [of r2 x2] show ?thesis by simp
  next
    case 3
    with l2 new have "x2 = y" by simp
    with 3 l1 eq nz clash [of r1 x1] show ?thesis by simp
  next
    case 4
    with l1 l2 same have "fmlookup (objs s) r1 = Some x1" "fmlookup (objs s) r2 = Some x2"
      by simp_all
    with inv eq nz show ?thesis by (blast dest: single_ownerD)
  qed
qed

lemma single_owner_remove:
  assumes inv: "single_owner s"
    and same: "\<And>q. q \<noteq> r \<Longrightarrow> fmlookup (objs s') q = fmlookup (objs s) q"
    and gone: "fmlookup (objs s') r = None"
  shows "single_owner s'"
proof (rule single_ownerI)
  fix r1 r2 x1 x2
  assume l1: "fmlookup (objs s') r1 = Some x1" and l2: "fmlookup (objs s') r2 = Some x2"
    and eq: "ptr x1 = ptr x2" and nz: "ptr x1 \<noteq> 0"
  from l1 l2 gone have "r1 \<noteq> r" "r2 \<noteq> r" by auto
  with l1 l2 same have "fmlookup (objs s) r1 = Some x1" "fmlookup (objs s) r2 = Some x2"
    by simp_all
  with inv eq nz show "r1 = r2" by (blast dest: single_ownerD)
qed

lemma ctor_pres:
  assumes inv: "single_owner s" and fresh: "p = 0 \<or> \<not> held_elsewhere s r p"
    and step: "auto_ptr_ctor r p s = Some s'"
  shows "single_owner s'"
proof (rule single_owner_update [OF inv])
  from step show "fmlookup (objs s') r = Some \<lparr>ptr = p\<rparr>"
    by (auto simp: auto_ptr_ctor_def split: option.splits)
  from step show "fmlookup (objs s') q = fmlookup (objs s) q" if "q \<noteq> r" for q
    using that by (auto simp: auto_ptr_ctor_def split: option.splits)
  from fresh show "ptr \<lparr>ptr = p\<rparr> = 0 \<or> \<not> held_elsewhere s r (ptr \<lparr>ptr = p\<rparr>)" by simp
qed

lemma release_pres:
  assumes inv: "single_owner s" and step: "release r s = Some (a, s')"
  shows "single_owner s'"
proof -
  from step obtain x where x: "fmlookup (objs s) r = Some x"
    and s': "s' = s\<lparr>objs := fmupd r (x\<lparr>ptr := 0\<rparr>) (objs s)\<rparr>"
    by (auto simp: release_def Let_def split: option.splits)
  show ?thesis
  proof (rule single_owner_update [OF inv])
    from s' show "fmlookup (objs s') r = Some (x\<lparr>ptr := 0\<rparr>)" by simp
    from s' show "fmlookup (objs s') q = fmlookup (objs s) q" if "q \<noteq> r" for q
      using that by simp
    show "ptr (x\<lparr>ptr := 0\<rparr>) = 0 \<or> \<not> held_elsewhere s r (ptr (x\<lparr>ptr := 0\<rparr>))" by simp
  qed
qed

lemma get_pres:
  assumes "single_owner s" "get r s = Some (a, s')"
  shows "single_owner s'"
  using assms by (auto simp: get_def split: option.splits)

lemma dtor_pres:
  assumes inv: "single_owner s" and step: "auto_ptr_dtor r s = Some s'"
  shows "single_owner s'"
proof (rule single_owner_remove [OF inv])
  from step show "fmlookup (objs s') r = None"
    by (auto simp: auto_ptr_dtor_def delete_ptr_def Let_def split: option.splits)
  from step show "fmlookup (objs s') q = fmlookup (objs s) q" if "q \<noteq> r" for q
    using that by (auto simp: auto_ptr_dtor_def delete_ptr_def Let_def split: option.splits)
qed

lemma reset_pres:
  assumes inv: "single_owner s" and fresh: "p = 0 \<or> \<not> held_elsewhere s r p"
    and step: "reset r p s = Some s'"
  shows "single_owner s'"
proof -
  from step obtain x where x: "fmlookup (objs s) r = Some x"
    and new: "fmlookup (objs s') r = Some (x\<lparr>ptr := p\<rparr>)"
    and same: "\<And>q. q \<noteq> r \<Longrightarrow> fmlookup (objs s') q = fmlookup (objs s) q"
    by (auto simp: reset_def delete_ptr_def Let_def split: option.splits if_splits)
  from fresh have "ptr (x\<lparr>ptr := p\<rparr>) = 0 \<or> \<not> held_elsewhere s r (ptr (x\<lparr>ptr := p\<rparr>))"
    by simp
  with inv same new show ?thesis by (rule single_owner_update)
qed

lemma released_unheld:
  assumes inv: "single_owner s" and step: "release other s = Some (p, s1)"
  shows "p = 0 \<or> \<not> held_elsewhere s1 r p"
proof (rule ccontr)
  assume "\<not> ?thesis"
  then obtain q y where q: "p \<noteq> 0" "fmlookup (objs s1) q = Some y" "ptr y = p"
    unfolding held_elsewhere_iff by blast
  from step obtain x where x: "fmlookup (objs s) other = Some x" "ptr x = p"
    and s1: "s1 = s\<lparr>objs := fmupd other (x\<lparr>ptr := 0\<rparr>) (objs s)\<rparr>"
    by (auto simp: release_def Let_def split: option.splits)
  from q s1 have "q \<noteq> other" by auto
  with q s1 have "fmlookup (objs s) q = Some y" by simp
  with x q \<open>q \<noteq> other\<close> show False using single_ownerD [OF inv, of q y other x] by simp
qed

lemma const_violation_Some:
  "const_violation d body = Some y \<Longrightarrow> d = Permissive \<and> body = Some y"
  by (cases d) (simp_all add: const_violation_def)

lemma copy_ctor_conforming: "auto_ptr_copy_ctor Conforming this other s = None"
  by (simp add: auto_ptr_copy_ctor_def const_violation_def)

lemma operator_assign_conforming: "operator_assign Conforming this other s = None"
  by (simp add: operator_assign_def const_violation_def)

lemma copy_pres:
  assumes inv: "single_owner s" and step: "auto_ptr_copy_ctor d r other s = Some s'"
  shows "single_owner s'"
proof -
  from step obtain p s1 where fr: "fmlookup (objs s) r = None"
    and rel: "release other s = Some (p, s1)"
    and s': "s' = s1\<lparr>objs := fmupd r \<lparr>ptr = p\<rparr> (objs s1)\<rparr>"
    by (auto simp: auto_ptr_copy_ctor_def dest!: const_violation_Some split: option.splits)
  from inv rel have inv1: "single_owner s1" by (rule release_pres)
  from rel fr have "fmlookup (objs s1) r = None"
    by (auto simp: release_def Let_def split: option.splits if_splits)
  with s' have "auto_ptr_ctor r p s1 = Some s'"
    by (simp add: auto_ptr_ctor_def)
  with inv1 released_unheld [OF inv rel] show ?thesis by (rule ctor_pres)
qed

lemma assign_pres:
  assumes inv: "single_owner s" and step: "operator_assign d r other s = Some (r', s')"
  shows "single_owner s'"
proof (cases "r = other")
  case True
  with step have "s' = s"
    by (auto simp: operator_assign_def dest!: const_violation_Some split: option.splits)
  with inv show ?thesis by simp
next
  case False
  from step False obtain a p s2 where a: "fmlookup (objs s) r = Some a"
    and rel: "release other (delete_ptr (ptr a) s) = Some (p, s2)"
    and s': "s' = s2\<lparr>objs := fmupd r (a\<lparr>ptr := p\<rparr>) (objs s2)\<rparr>"
    by (auto simp: operator_assign_def Let_def dest!: const_violation_Some
             split: option.splits)
  have "single_owner (delete_ptr (ptr a) s)"
    using inv by (rule single_owner_objs) simp
  then have inv2: "single_owner s2" and fresh: "p = 0 \<or> \<not> held_elsewhere s2 r p"
    using rel by (rule release_pres, rule released_unheld)
  show ?thesis
  proof (rule single_owner_update [OF inv2])
    from s' show "fmlookup (objs s') r = Some (a\<lparr>ptr := p\<rparr>)" by simp
    from s' show "fmlookup (objs s') q = fmlookup (objs s2) q" if "q \<noteq> r" for q
      using that by simp
    from fresh show "ptr (a\<lparr>ptr := p\<rparr>) = 0 \<or> \<not> held_elsewhere s2 r (ptr (a\<lparr>ptr := p\<rparr>))"
      by simp
  qed
qed

lemma exec_pres:
  assumes "single_owner s" "adopts_unheld x s" "exec d x s = Some s'"
  shows "single_owner s'"
  using assms
  by (cases x) (auto intro: ctor_pres release_pres get_pres dtor_pres reset_pres copy_pres assign_pres)

lemma run_pres:
  "single_owner s \<Longrightarrow> disciplined d ops s \<Longrightarrow> run d ops s = Some s' \<Longrightarrow> single_owner s'"
proof (induction ops arbitrary: s)
  case Nil
  then show ?case by simp
next
  case (Cons x xs)
  then obtain s1 where s1: "exec d x s = Some s1" and r: "run d xs s1 = Some s'"
    by (auto split: option.splits)
  from Cons.prems s1 have "single_owner s1" "disciplined d xs s1"
    by (auto intro: exec_pres)
  with r show ?case by (rule Cons.IH[rotated 2])
qed

lemma disciplined_take:
  "disciplined d ops s \<Longrightarrow> disciplined d (take n ops) s"
proof (induction ops arbitrary: s n)
  case Nil
  then show ?case by simp
next
  case (Cons x xs)
  then show ?case by (cases n) (auto split: option.splits)
qed

section \<open>The members, one by one\<close>

text \<open>
  C8. For every address \<open>a\<close>, null included, constructing an instance from \<open>a\<close> and then
  calling \<open>get\<close> returns \<open>a\<close>; and \<open>get\<close> has no side effect: whenever it returns, the
  state it returns is the state it was called in.
\<close>

theorem ctor_get_roundtrip:
  assumes "fmlookup (objs s) r = None"
  shows "(\<exists>s'. auto_ptr_ctor r a s = Some s' \<and> get r s' = Some (a, s'))
       \<and> (\<forall>q t v t'. get q t = Some (v, t') \<longrightarrow> t' = t)"
  using assms
  by (auto simp: get_def auto_ptr_ctor_def split: option.splits)

theorem ctor_get_roundtrip_witness:
  "fmlookup (objs init_state) 1 = None
   \<and> (\<exists>s'. auto_ptr_ctor 1 0 init_state = Some s' \<and> get 1 s' = Some (0, s'))
   \<and> (\<exists>s'. auto_ptr_ctor 1 7 init_state = Some s' \<and> get 1 s' = Some (7, s'))
   \<and> get 1 \<lparr>objs = fmupd 1 \<lparr>ptr = 7\<rparr> fmempty, freed = []\<rparr>
       = Some (7, \<lparr>objs = fmupd 1 \<lparr>ptr = 7\<rparr> fmempty, freed = []\<rparr>)"
proof -
  have fresh: "fmlookup (objs init_state) 1 = None"
    by (simp add: init_state_def)
  have g: "get 1 \<lparr>objs = fmupd 1 \<lparr>ptr = 7\<rparr> fmempty, freed = []\<rparr>
       = Some (7, \<lparr>objs = fmupd 1 \<lparr>ptr = 7\<rparr> fmempty, freed = []\<rparr>)"
    by (simp add: get_def)
  from ctor_get_roundtrip [OF fresh, of 0] ctor_get_roundtrip [OF fresh, of 7] fresh g
  show ?thesis by blast
qed

text \<open>
  C2. Copy construction is meant to transfer ownership, and does not: the copy
  constructor calls the non-const \<open>release\<close> through its \<open>const\<close> parameter, so a
  conforming compiler rejects the program. With instance 1 alive and holding 7 and
  instance 2 new, \<open>auto_ptr o2(o1)\<close> has no result.
\<close>

theorem copy_ctor_ill_formed:
  "holds \<lparr>objs = fmupd 1 \<lparr>ptr = 7\<rparr> fmempty, freed = []\<rparr> 1 7
   \<and> fmlookup (objs \<lparr>objs = fmupd 1 \<lparr>ptr = 7\<rparr> fmempty, freed = []\<rparr>) 2 = None
   \<and> auto_ptr_copy_ctor Conforming 2 1 \<lparr>objs = fmupd 1 \<lparr>ptr = 7\<rparr> fmempty, freed = []\<rparr> = None"
  by (simp add: holds_def auto_ptr_copy_ctor_def const_violation_def)

text \<open>
  What the body was written to do shows once the qualifier is discarded: the new
  instance then holds the address, the source is empty, and nothing is deallocated.
\<close>

lemma copy_ctor_permissive:
  assumes "holds s o1 a" and "fmlookup (objs s) o2 = None"
  shows "\<exists>s'. auto_ptr_copy_ctor Permissive o2 o1 s = Some s' \<and> get o2 s' = Some (a, s')
             \<and> get o1 s' = Some (0, s') \<and> freed s' = freed s"
  using assms
  by (auto simp: holds_def get_def auto_ptr_copy_ctor_def const_violation_def release_def
                 Let_def split: option.splits)

text \<open>
  C3. Copy assignment between two distinct instances is meant to free the target's
  memory and transfer ownership, and does not: \<open>operator=\<close> calls the non-const
  \<open>release\<close> through its \<open>const\<close> parameter, so a conforming compiler rejects the
  program. With instance 1 alive and holding 9 and instance 2 alive and holding 7,
  \<open>t = u\<close> has no result.
\<close>

theorem distinct_assign_ill_formed:
  "(1::ref) \<noteq> 2
   \<and> holds \<lparr>objs = fmupd 2 \<lparr>ptr = 7\<rparr> (fmupd 1 \<lparr>ptr = 9\<rparr> fmempty), freed = []\<rparr> 1 9
   \<and> holds \<lparr>objs = fmupd 2 \<lparr>ptr = 7\<rparr> (fmupd 1 \<lparr>ptr = 9\<rparr> fmempty), freed = []\<rparr> 2 7
   \<and> operator_assign Conforming 1 2
        \<lparr>objs = fmupd 2 \<lparr>ptr = 7\<rparr> (fmupd 1 \<lparr>ptr = 9\<rparr> fmempty), freed = []\<rparr> = None"
  by (simp add: holds_def operator_assign_def const_violation_def)

text \<open>
  With the qualifier discarded the body deallocates what the target held (nothing when
  the target was empty), gives the target the source's address and empties the source.
\<close>

lemma assign_permissive:
  assumes "t \<noteq> u" and "holds s t b" and "holds s u a"
  shows "\<exists>s'. operator_assign Permissive t u s = Some (t, s')
             \<and> freed s' = (if b = 0 then freed s else freed s @ [b])
             \<and> get t s' = Some (a, s') \<and> get u s' = Some (0, s')"
  using assms
  by (auto simp: holds_def get_def operator_assign_def const_violation_def release_def
                 delete_ptr_def Let_def split: option.splits)

text \<open>
  C4. For every live instance \<open>r\<close>, \<open>release\<close> returns the address \<open>r\<close> holds, deallocates
  nothing, and leaves \<open>r.get()\<close> null.
\<close>

theorem release_postcondition:
  assumes "holds s r a"
  shows "\<exists>s'. release r s = Some (a, s') \<and> freed s' = freed s \<and> get r s' = Some (0, s')"
  using assms
  by (auto simp: holds_def get_def release_def Let_def split: option.splits)

theorem release_postcondition_witness:
  "holds \<lparr>objs = fmupd 1 \<lparr>ptr = 7\<rparr> fmempty, freed = [3]\<rparr> 1 7
   \<and> (\<exists>s'. release 1 \<lparr>objs = fmupd 1 \<lparr>ptr = 7\<rparr> fmempty, freed = [3]\<rparr> = Some (7, s')
          \<and> freed s' = [3] \<and> get 1 s' = Some (0, s'))"
proof -
  have h: "holds \<lparr>objs = fmupd 1 \<lparr>ptr = 7\<rparr> fmempty, freed = [3]\<rparr> 1 7"
    by (simp add: holds_def)
  from release_postcondition [OF h] h show ?thesis by simp
qed

text \<open>
  C5. For every live instance \<open>r\<close> holding \<open>a\<close>: \<open>r.reset(b)\<close> with \<open>b\<close> different from \<open>a\<close>
  deallocates \<open>a\<close> and nothing else (nothing at all when \<open>a\<close> is null), and leaves
  \<open>r.get()\<close> equal to \<open>b\<close>; \<open>r.reset(a)\<close> deallocates nothing, changes nothing, and
  \<open>r.get()\<close> is still \<open>a\<close>.
\<close>

theorem reset_semantics:
  assumes "holds s r a"
  shows "(b \<noteq> a \<longrightarrow>
            (\<exists>s'. reset r b s = Some s'
                \<and> freed s' = (if a = 0 then freed s else freed s @ [a])
                \<and> get r s' = Some (b, s')))
       \<and> reset r a s = Some s \<and> get r s = Some (a, s)"
  using assms
  by (auto simp: holds_def get_def reset_def delete_ptr_def Let_def split: option.splits)

theorem reset_semantics_witness:
  "holds \<lparr>objs = fmupd 1 \<lparr>ptr = 7\<rparr> fmempty, freed = []\<rparr> 1 7
   \<and> (8::addr) \<noteq> 7
   \<and> (\<exists>s'. reset 1 8 \<lparr>objs = fmupd 1 \<lparr>ptr = 7\<rparr> fmempty, freed = []\<rparr> = Some s'
          \<and> freed s' = [7] \<and> get 1 s' = Some (8, s'))
   \<and> reset 1 7 \<lparr>objs = fmupd 1 \<lparr>ptr = 7\<rparr> fmempty, freed = []\<rparr>
        = Some \<lparr>objs = fmupd 1 \<lparr>ptr = 7\<rparr> fmempty, freed = []\<rparr>"
proof -
  have h: "holds \<lparr>objs = fmupd 1 \<lparr>ptr = 7\<rparr> fmempty, freed = []\<rparr> 1 7"
    by (simp add: holds_def)
  from reset_semantics [OF h, of 8] h show ?thesis by simp
qed

text \<open>
  C10. \<open>reset()\<close>, the call with the default null argument, on a live instance \<open>r\<close>
  holding \<open>a\<close>: when \<open>a\<close> is not null it deallocates \<open>a\<close> and nothing else and leaves
  \<open>r.get()\<close> null; when \<open>r\<close> is already empty it deallocates nothing and changes nothing.
\<close>

theorem reset_default_clears:
  assumes "holds s r a"
  shows "(a \<noteq> 0 \<longrightarrow>
            (\<exists>s'. reset_default r s = Some s' \<and> freed s' = freed s @ [a]
                \<and> get r s' = Some (0, s')))
       \<and> (a = 0 \<longrightarrow> reset_default r s = Some s \<and> get r s = Some (0, s))"
  using assms
  by (auto simp: holds_def get_def reset_default_def reset_def delete_ptr_def Let_def
           split: option.splits)

theorem reset_default_clears_witness:
  "holds \<lparr>objs = fmupd 1 \<lparr>ptr = 7\<rparr> fmempty, freed = []\<rparr> 1 7
   \<and> (\<exists>s'. reset_default 1 \<lparr>objs = fmupd 1 \<lparr>ptr = 7\<rparr> fmempty, freed = []\<rparr> = Some s'
          \<and> freed s' = [7] \<and> get 1 s' = Some (0, s'))
   \<and> holds \<lparr>objs = fmupd 1 \<lparr>ptr = 0\<rparr> fmempty, freed = []\<rparr> 1 0
   \<and> reset_default 1 \<lparr>objs = fmupd 1 \<lparr>ptr = 0\<rparr> fmempty, freed = []\<rparr>
        = Some \<lparr>objs = fmupd 1 \<lparr>ptr = 0\<rparr> fmempty, freed = []\<rparr>"
proof -
  have h7: "holds \<lparr>objs = fmupd 1 \<lparr>ptr = 7\<rparr> fmempty, freed = []\<rparr> 1 7"
    by (simp add: holds_def)
  have h0: "holds \<lparr>objs = fmupd 1 \<lparr>ptr = 0\<rparr> fmempty, freed = []\<rparr> 1 0"
    by (simp add: holds_def)
  from reset_default_clears [OF h7] reset_default_clears [OF h0] h7 h0
  show ?thesis by simp
qed

text \<open>
  C7. Self-assignment is meant to be a detected no-op, and is not: the test
  \<open>this != &other\<close> is in the same body as the call of the non-const \<open>release\<close>
  through the \<open>const\<close> parameter, and the body is checked as a whole, so a conforming
  compiler rejects \<open>o = o\<close> as it rejects any other assignment. With instance 1 alive
  and holding 7, \<open>o = o\<close> has no result.
\<close>

theorem self_assign_ill_formed:
  "holds \<lparr>objs = fmupd 1 \<lparr>ptr = 7\<rparr> fmempty, freed = []\<rparr> 1 7
   \<and> operator_assign Conforming 1 1 \<lparr>objs = fmupd 1 \<lparr>ptr = 7\<rparr> fmempty, freed = []\<rparr> = None"
  by (simp add: holds_def operator_assign_def const_violation_def)

text \<open>With the qualifier discarded the test is reached and the state is left as it was.\<close>

lemma self_assign_permissive:
  assumes "holds s r a"
  shows "operator_assign Permissive r r s = Some (r, s)"
  using assms
  by (auto simp: holds_def operator_assign_def const_violation_def split: option.splits)

text \<open>
  C6. Destroying a live instance \<open>r\<close> that holds \<open>a\<close> succeeds and ends its life; when
  \<open>a\<close> is not null the log of deallocations grows by exactly the one entry \<open>a\<close>, and
  when \<open>r\<close> is empty the log is unchanged. In particular, destroying \<open>r\<close> after
  \<open>release\<close>, or after \<open>r\<close> was the source of a copy construction, deallocates nothing
  (the copy construction is the one of a translation that discards the qualifier: no
  other translation runs it).
\<close>

theorem dtor_deallocation:
  assumes "holds s r a"
  shows "(\<exists>s'. auto_ptr_dtor r s = Some s'
              \<and> freed s' = (if a = 0 then freed s else freed s @ [a])
              \<and> fmlookup (objs s') r = None)
       \<and> (\<exists>s1 s2. release r s = Some (a, s1) \<and> auto_ptr_dtor r s1 = Some s2
              \<and> freed s2 = freed s)
       \<and> (\<forall>r2. fmlookup (objs s) r2 = None \<longrightarrow>
            (\<exists>s1 s2. auto_ptr_copy_ctor Permissive r2 r s = Some s1
                \<and> auto_ptr_dtor r s1 = Some s2 \<and> freed s2 = freed s))"
proof (intro conjI allI impI)
  from assms show "\<exists>s'. auto_ptr_dtor r s = Some s'
      \<and> freed s' = (if a = 0 then freed s else freed s @ [a]) \<and> fmlookup (objs s') r = None"
    by (auto simp: holds_def auto_ptr_dtor_def delete_ptr_def Let_def split: option.splits)
  from assms show "\<exists>s1 s2. release r s = Some (a, s1) \<and> auto_ptr_dtor r s1 = Some s2
      \<and> freed s2 = freed s"
    by (auto simp: holds_def release_def auto_ptr_dtor_def delete_ptr_def Let_def
             split: option.splits)
next
  fix r2 assume "fmlookup (objs s) r2 = None"
  with assms show "\<exists>s1 s2. auto_ptr_copy_ctor Permissive r2 r s = Some s1
      \<and> auto_ptr_dtor r s1 = Some s2 \<and> freed s2 = freed s"
    by (auto simp: holds_def auto_ptr_copy_ctor_def const_violation_def release_def
                   auto_ptr_dtor_def delete_ptr_def Let_def split: option.splits)
qed

theorem dtor_deallocation_witness:
  "holds \<lparr>objs = fmupd 1 \<lparr>ptr = 7\<rparr> fmempty, freed = [3]\<rparr> 1 7
   \<and> (\<exists>s'. auto_ptr_dtor 1 \<lparr>objs = fmupd 1 \<lparr>ptr = 7\<rparr> fmempty, freed = [3]\<rparr> = Some s'
          \<and> freed s' = [3, 7] \<and> fmlookup (objs s') 1 = None)
   \<and> (\<exists>s1 s2. release 1 \<lparr>objs = fmupd 1 \<lparr>ptr = 7\<rparr> fmempty, freed = [3]\<rparr> = Some (7, s1)
          \<and> auto_ptr_dtor 1 s1 = Some s2 \<and> freed s2 = [3])
   \<and> fmlookup (objs \<lparr>objs = fmupd 1 \<lparr>ptr = 7\<rparr> fmempty, freed = [3]\<rparr>) 2 = None
   \<and> (\<exists>s1 s2. auto_ptr_copy_ctor Permissive 2 1
                 \<lparr>objs = fmupd 1 \<lparr>ptr = 7\<rparr> fmempty, freed = [3]\<rparr> = Some s1
          \<and> auto_ptr_dtor 1 s1 = Some s2 \<and> freed s2 = [3])
   \<and> holds \<lparr>objs = fmupd 1 \<lparr>ptr = 0\<rparr> fmempty, freed = [3]\<rparr> 1 0
   \<and> (\<exists>s'. auto_ptr_dtor 1 \<lparr>objs = fmupd 1 \<lparr>ptr = 0\<rparr> fmempty, freed = [3]\<rparr> = Some s'
          \<and> freed s' = [3] \<and> fmlookup (objs s') 1 = None)"
proof -
  have h7: "holds \<lparr>objs = fmupd 1 \<lparr>ptr = 7\<rparr> fmempty, freed = [3]\<rparr> 1 7"
    by (simp add: holds_def)
  have h0: "holds \<lparr>objs = fmupd 1 \<lparr>ptr = 0\<rparr> fmempty, freed = [3]\<rparr> 1 0"
    by (simp add: holds_def)
  have fresh: "fmlookup (objs \<lparr>objs = fmupd 1 \<lparr>ptr = 7\<rparr> fmempty, freed = [3]\<rparr>) 2 = None"
    by simp
  from dtor_deallocation [OF h7] dtor_deallocation [OF h0] h7 h0 fresh
  show ?thesis by simp
qed

section \<open>The single-owner invariant along a run\<close>

text \<open>
  The class keeps no record of the addresses other instances hold, so the constructor
  and \<open>reset\<close> adopt whatever pointer they are given: starting from no instances at all,
  constructing two instances from the same raw address leaves two live instances that
  both hold it. No copy operation is involved, so a conforming compiler accepts the
  program.
\<close>

theorem shared_address_two_owners:
  "single_owner init_state
   \<and> run Conforming [Construct 1 5, Construct 2 5] init_state
       = Some \<lparr>objs = fmupd 2 \<lparr>ptr = 5\<rparr> (fmupd 1 \<lparr>ptr = 5\<rparr> fmempty), freed = []\<rparr>
   \<and> holds \<lparr>objs = fmupd 2 \<lparr>ptr = 5\<rparr> (fmupd 1 \<lparr>ptr = 5\<rparr> fmempty), freed = []\<rparr> 1 5
   \<and> holds \<lparr>objs = fmupd 2 \<lparr>ptr = 5\<rparr> (fmupd 1 \<lparr>ptr = 5\<rparr> fmempty), freed = []\<rparr> 2 5
   \<and> \<not> single_owner \<lparr>objs = fmupd 2 \<lparr>ptr = 5\<rparr> (fmupd 1 \<lparr>ptr = 5\<rparr> fmempty), freed = []\<rparr>"
  by (simp add: init_state_def auto_ptr_ctor_def single_owner_def held_elsewhere_def holds_def)

text \<open>
  C1, as amended. Start in a state where at most one live instance holds any non-null
  address, and run, under either translation, any sequence of constructions, copy
  constructions, copy assignments, \<open>get\<close>, \<open>release\<close>, \<open>reset\<close> and destructions in which
  every construction from a raw pointer and every \<open>reset\<close> is given a pointer that is null
  or held by no other live instance. Then after every prefix of the sequence at most one
  live instance holds any non-null address. Copy construction and copy assignment need
  no condition: where they run, they empty their source.
\<close>

theorem single_owner_preserved:
  assumes "single_owner s" and "disciplined d ops s" and "run d (take n ops) s = Some s'"
  shows "single_owner s'"
proof -
  from assms(2) have "disciplined d (take n ops) s" by (rule disciplined_take)
  with assms(1) show ?thesis using assms(3) by (rule run_pres)
qed

theorem single_owner_preserved_witness:
  "single_owner init_state
   \<and> disciplined Permissive
        [Construct 1 5, CopyConstruct 2 1, Construct 3 6, Assign 3 2, Release 3,
         Reset 1 5, Destroy 2] init_state
   \<and> (\<exists>s'. run Permissive
               (take 7 [Construct 1 5, CopyConstruct 2 1, Construct 3 6, Assign 3 2, Release 3,
                        Reset 1 5, Destroy 2]) init_state = Some s'
          \<and> single_owner s' \<and> holds s' 1 5 \<and> holds s' 3 0 \<and> freed s' = [6])
   \<and> disciplined Conforming
        [Construct 1 5, Construct 2 6, Release 1, Reset 2 5, Reset 1 8, Destroy 2] init_state
   \<and> (\<exists>s'. run Conforming
               (take 5 [Construct 1 5, Construct 2 6, Release 1, Reset 2 5, Reset 1 8,
                        Destroy 2]) init_state = Some s'
          \<and> single_owner s' \<and> holds s' 1 8 \<and> holds s' 2 5 \<and> freed s' = [6])"
proof -
  have h1: "single_owner init_state"
    by (simp add: single_owner_def init_state_def)
  have h2: "disciplined Permissive
        [Construct 1 5, CopyConstruct 2 1, Construct 3 6, Assign 3 2, Release 3,
         Reset 1 5, Destroy 2] init_state"
    by (simp add: init_state_def auto_ptr_ctor_def auto_ptr_copy_ctor_def const_violation_def
          release_def operator_assign_def delete_ptr_def reset_def auto_ptr_dtor_def
          held_elsewhere_def holds_def)
  obtain s' where h3: "run Permissive
               (take 7 [Construct 1 5, CopyConstruct 2 1, Construct 3 6, Assign 3 2, Release 3,
                        Reset 1 5, Destroy 2]) init_state = Some s'"
    and obs: "holds s' 1 5" "holds s' 3 0" "freed s' = [6]"
    by (simp add: init_state_def auto_ptr_ctor_def auto_ptr_copy_ctor_def const_violation_def
          release_def operator_assign_def delete_ptr_def reset_def auto_ptr_dtor_def holds_def)
  have c2: "disciplined Conforming
        [Construct 1 5, Construct 2 6, Release 1, Reset 2 5, Reset 1 8, Destroy 2] init_state"
    by (simp add: init_state_def auto_ptr_ctor_def release_def delete_ptr_def reset_def
          auto_ptr_dtor_def held_elsewhere_def holds_def)
  obtain t' where c3: "run Conforming
               (take 5 [Construct 1 5, Construct 2 6, Release 1, Reset 2 5, Reset 1 8,
                        Destroy 2]) init_state = Some t'"
    and cobs: "holds t' 1 8" "holds t' 2 5" "freed t' = [6]"
    by (simp add: init_state_def auto_ptr_ctor_def release_def delete_ptr_def reset_def
          auto_ptr_dtor_def holds_def)
  from single_owner_preserved [OF h1 h2 h3] single_owner_preserved [OF h1 c2 c3]
    h1 h2 h3 obs c2 c3 cobs
  show ?thesis by blast
qed

end
